theory Spec2Isabelle
  imports Complex_Main
begin

section \<open>NumPy values\<close>

text \<open>
  A NumPy float is modelled as a real number or the not-a-number value that
  \<open>0 / 0\<close> produces. Rounding, overflow and infinities are outside the model: every
  finite float is read as the real it denotes, and \<open>astype(np.float32)\<close> is the identity.
\<close>

datatype flt = Fin real | NaN

fun the_fins :: "flt list \<Rightarrow> real list option" where
  "the_fins [] = Some []"
| "the_fins (Fin x # v) = map_option (Cons x) (the_fins v)"
| "the_fins (NaN # v) = None"

definition sum_squares :: "real list \<Rightarrow> real" where
  "sum_squares xs = sum_list (map (\<lambda>x. x * x) xs)"

definition linalg_norm :: "flt list \<Rightarrow> flt" where
  \<comment> \<open>\<open>np.linalg.norm(v)\<close>: a not-a-number element makes the norm not-a-number.\<close>
  "linalg_norm v = (case the_fins v of None \<Rightarrow> NaN | Some xs \<Rightarrow> Fin (sqrt (sum_squares xs)))"

definition np_normalize :: "flt list \<Rightarrow> flt list" where
  \<comment> \<open>\<open>v / np.linalg.norm(v)\<close>. Dividing by a not-a-number norm gives not-a-number in
      every place. A norm of zero means that every element is zero, and NumPy evaluates
      \<open>0 / 0\<close> to not-a-number with a warning, not an exception.\<close>
  "np_normalize v =
     (case the_fins v of
        None \<Rightarrow> replicate (length v) NaN
      | Some xs \<Rightarrow>
          (case linalg_norm v of
             NaN \<Rightarrow> replicate (length v) NaN
           | Fin n \<Rightarrow> if n = 0 then replicate (length v) NaN
                      else map (\<lambda>x. Fin (x / n)) xs))"

definition l2sqr :: "flt list \<Rightarrow> flt list \<Rightarrow> flt" where
  \<comment> \<open>The squared Euclidean distance that \<open>IndexFlatL2\<close> computes.\<close>
  "l2sqr q v =
     (case (the_fins q, the_fins v) of
        (Some a, Some b) \<Rightarrow> Fin (sum_list (map (\<lambda>(x, y). (x - y) * (x - y)) (zip a b)))
      | _ \<Rightarrow> NaN)"

section \<open>Python values\<close>

datatype pyval = PStr string | PInt int | PFloat real | PDict "(string \<times> pyval) list"

type_synonym face_metadata = "string \<rightharpoonup> pyval"

definition digit_char :: "nat \<Rightarrow> char" where
  "digit_char d = char_of (48 + d)"

fun str_nat :: "nat \<Rightarrow> string" where
  "str_nat n = (if n < 10 then [digit_char n] else str_nat (n div 10) @ [digit_char (n mod 10)])"

definition py_str :: "int \<Rightarrow> string" where
  \<comment> \<open>Python's \<open>str\<close> on an integer.\<close>
  "py_str i = (if i < 0 then CHR ''-'' # str_nat (nat (- i)) else str_nat (nat i))"



section \<open>The FAISS manager and its files\<close>

record faiss_manager =
  index :: "flt list list"
  metadata :: "string \<rightharpoonup> face_metadata"
  dimension :: nat
  threshold :: real

datatype 'a disk_file = Missing | Corrupt | Stored 'a

text \<open>
  The two files of a manager. \<open>faiss.write_index\<close>/\<open>faiss.read_index\<close> and
  \<open>json.dump\<close>/\<open>json.load\<close> are library code: a file that was written holds the value
  written, a file that cannot be parsed is \<open>Corrupt\<close>. Whether a file can be written
  (permissions, free space) is a state of the file system: a write to a file that cannot
  be written raises and leaves the file as it was.
\<close>

record storage =
  index_file :: "flt list list disk_file"
  metadata_file :: "(string \<rightharpoonup> face_metadata) disk_file"
  index_writable :: bool
  metadata_writable :: bool

definition ntotal :: "faiss_manager \<Rightarrow> nat" where
  "ntotal s = length (index s)"

definition new_index :: "faiss_manager \<Rightarrow> faiss_manager" where
  \<comment> \<open>\<open>self.index = faiss.IndexFlatL2(self.dimension); self.metadata = {}\<close>\<close>
  "new_index s = s\<lparr>index := [], metadata := Map.empty\<rparr>"

definition initialize_index :: "faiss_manager \<Rightarrow> storage \<Rightarrow> faiss_manager" where
  \<comment> \<open>\<open>_initialize_index\<close>: both files must exist; a file that fails to load raises, and
      the handler falls back to a new index.\<close>
  "initialize_index s disk =
     (if index_file disk \<noteq> Missing \<and> metadata_file disk \<noteq> Missing then
        (case index_file disk of
           Stored ix \<Rightarrow>
             (case metadata_file disk of
                Stored m \<Rightarrow> s\<lparr>index := ix, metadata := m\<rparr>
              | _ \<Rightarrow> new_index s)
         | _ \<Rightarrow> new_index s)
      else new_index s)"

definition FAISSManager :: "storage \<Rightarrow> faiss_manager" where
  \<comment> \<open>\<open>__init__\<close>\<close>
  "FAISSManager disk =
     initialize_index \<lparr>index = [], metadata = Map.empty, dimension = 128, threshold = 6 / 10\<rparr> disk"

definition save_index :: "faiss_manager \<Rightarrow> storage \<Rightarrow> storage" where
  \<comment> \<open>\<open>_save_index\<close>: the index file, then the metadata file, both inside one \<open>try\<close>
      whose handler only logs. When the first write raises the second is not tried; when
      the second raises the index file has been written already.\<close>
  "save_index s disk =
     (if \<not> index_writable disk then disk
      else
        let disk1 = disk\<lparr>index_file := Stored (index s)\<rparr>
        in if \<not> metadata_writable disk1 then disk1
           else disk1\<lparr>metadata_file := Stored (metadata s)\<rparr>)"

definition build_metadata :: "string \<Rightarrow> string \<Rightarrow> int \<Rightarrow> face_metadata option \<Rightarrow> face_metadata" where
  "build_metadata face_id person_name index_position additional_metadata =
     (let md = [''face_id'' \<mapsto> PStr face_id, ''person_name'' \<mapsto> PStr person_name,
                ''index_position'' \<mapsto> PInt index_position]
      in case additional_metadata of
           None \<Rightarrow> md
         | Some a \<Rightarrow> if a = Map.empty then md else md ++ a)"

definition add_face_encoding ::
  "faiss_manager \<Rightarrow> storage \<Rightarrow> flt list \<Rightarrow> string \<Rightarrow> string \<Rightarrow> face_metadata option
     \<Rightarrow> bool \<times> faiss_manager \<times> storage" where
  \<comment> \<open>The encoding is given by its elements in order; \<open>reshape(self.dimension)\<close> raises
      exactly when their number is not \<open>self.dimension\<close>, and the handler returns False.\<close>
  "add_face_encoding s disk encoding face_id person_name additional_metadata =
     (if length encoding \<noteq> dimension s then (False, s, disk)
      else
        let encoding' = np_normalize encoding;
            s1 = s\<lparr>index := index s @ [encoding']\<rparr>;
            index_position = int (ntotal s1) - 1;
            md = build_metadata face_id person_name index_position additional_metadata;
            s2 = s1\<lparr>metadata := (metadata s1)(py_str index_position \<mapsto> md)\<rparr>
        in (True, s2, save_index s2 disk))"



section \<open>Searching\<close>

record face_match =
  face_id :: pyval
  person_name :: pyval
  similarity :: real
  distance :: real
  index_position :: int
  rank :: nat

definition FLT_MAX :: real where
  "FLT_MAX = 340282346638528859811704183484516925440"

definition candidates :: "flt list list \<Rightarrow> flt list \<Rightarrow> (real \<times> int) list" where
  \<comment> \<open>The stored vectors with their distances to the query, by increasing label. A
      comparison with not-a-number is false, so a vector at such a distance is never
      selected.\<close>
  "candidates xb q =
     concat (map (\<lambda>(i, v). case l2sqr q v of Fin dd \<Rightarrow> [(dd, int i)] | NaN \<Rightarrow> [])
                 (enumerate 0 xb))"

definition index_search :: "flt list list \<Rightarrow> flt list \<Rightarrow> nat \<Rightarrow> (real \<times> int) list" where
  \<comment> \<open>\<open>IndexFlatL2.search\<close> for one query (library code): the exact \<open>k\<close> nearest stored
      vectors by increasing squared distance, equal distances by increasing label; the
      places for which no vector was found carry the label \<open>-1\<close>.\<close>
  "index_search xb q k =
     (let found = take k (sort_key fst (candidates xb q))
      in found @ replicate (k - length found) (FLT_MAX, - 1))"

definition lookup_field :: "face_metadata \<Rightarrow> string \<Rightarrow> pyval \<Rightarrow> pyval" where
  \<comment> \<open>\<open>metadata.get(key, default)\<close>\<close>
  "lookup_field md key dflt = (case md key of Some v \<Rightarrow> v | None \<Rightarrow> dflt)"

fun collect_matches :: "faiss_manager \<Rightarrow> nat \<Rightarrow> (real \<times> int) list \<Rightarrow> face_match list" where
  \<comment> \<open>The loop over \<open>enumerate(zip(distances[0], indices[0]))\<close>, from place \<open>i\<close> on.\<close>
  "collect_matches s i [] = []"
| "collect_matches s i ((dd, idx) # rest) =
     (if idx = - 1 then collect_matches s (i + 1) rest
      else
        let sim = max 0 (1 - dd) in
        if sim \<ge> 1 - threshold s then
          (let md = (case metadata s (py_str idx) of Some m \<Rightarrow> m | None \<Rightarrow> Map.empty)
           in \<lparr>face_id = lookup_field md ''face_id'' (PStr ''unknown''),
               person_name = lookup_field md ''person_name'' (PStr ''unknown''),
               similarity = sim,
               distance = dd,
               index_position = idx,
               rank = i + 1\<rparr> # collect_matches s (i + 1) rest)
        else collect_matches s (i + 1) rest)"

definition search_similar_faces :: "faiss_manager \<Rightarrow> flt list \<Rightarrow> int \<Rightarrow> face_match list" where
  \<comment> \<open>Every exception is caught and answered with the empty list: \<open>reshape\<close> raises when
      the query has not \<open>self.dimension\<close> elements, \<open>index.search\<close> when \<open>k\<close> is not
      positive.\<close>
  "search_similar_faces s query_encoding k =
     (if ntotal s = 0 then []
      else if length query_encoding \<noteq> dimension s then []
      else
        let q = np_normalize query_encoding;
            kk = min k (int (ntotal s))
        in if kk \<le> 0 then []
           else collect_matches s 0 (index_search (index s) q (nat kk)))"

definition get_best_match :: "faiss_manager \<Rightarrow> flt list \<Rightarrow> face_match option" where
  "get_best_match s query_encoding =
     (case search_similar_faces s query_encoding 1 of [] \<Rightarrow> None | r # _ \<Rightarrow> Some r)"

section \<open>Encoding a face\<close>

type_synonym rgb_image = "(nat \<times> nat \<times> nat) list list"

datatype py_error = ValueError string | RuntimeError string

record bounding_box =
  bb_x :: int
  bb_y :: int
  bb_width :: int
  bb_height :: int

definition py_slice :: "'a list \<Rightarrow> int \<Rightarrow> int \<Rightarrow> 'a list" where
  \<comment> \<open>Python's \<open>xs[a:b]\<close>: a negative bound counts from the end, and bounds are clipped.\<close>
  "py_slice xs a b =
     (let n = int (length xs);
          a' = (if a < 0 then max 0 (a + n) else min a n);
          b' = (if b < 0 then max 0 (b + n) else min b n)
      in take (nat (b' - a')) (drop (nat a') xs))"

definition shape1 :: "'a list list \<Rightarrow> nat" where
  \<comment> \<open>\<open>image.shape[1]\<close>, the length of the rows\<close>
  "shape1 img = (case img of [] \<Rightarrow> 0 | r # _ \<Rightarrow> length r)"

definition reflect101 :: "nat \<Rightarrow> int \<Rightarrow> nat" where
  \<comment> \<open>OpenCV's default border, \<open>BORDER_REFLECT_101\<close>, for a place one step outside.\<close>
  "reflect101 n i =
     (if n = 1 then 0
      else if i < 0 then nat (- i)
      else if i \<ge> int n then nat (2 * (int n - 1) - i)
      else nat i)"

definition pixel :: "real list list \<Rightarrow> int \<Rightarrow> int \<Rightarrow> real" where
  "pixel img r c = img ! reflect101 (length img) r ! reflect101 (shape1 img) c"

definition sobel_x :: "real list list \<Rightarrow> real list list" where
  \<comment> \<open>\<open>cv2.Sobel(img, cv2.CV_64F, 1, 0, ksize=3)\<close>\<close>
  "sobel_x img =
     map (\<lambda>r. map (\<lambda>c.
            (pixel img (int r - 1) (int c + 1) + 2 * pixel img (int r) (int c + 1)
               + pixel img (int r + 1) (int c + 1))
          - (pixel img (int r - 1) (int c - 1) + 2 * pixel img (int r) (int c - 1)
               + pixel img (int r + 1) (int c - 1)))
          [0..<shape1 img]) [0..<length img]"

definition sobel_y :: "real list list \<Rightarrow> real list list" where
  \<comment> \<open>\<open>cv2.Sobel(img, cv2.CV_64F, 0, 1, ksize=3)\<close>\<close>
  "sobel_y img =
     map (\<lambda>r. map (\<lambda>c.
            (pixel img (int r + 1) (int c - 1) + 2 * pixel img (int r + 1) (int c)
               + pixel img (int r + 1) (int c + 1))
          - (pixel img (int r - 1) (int c - 1) + 2 * pixel img (int r - 1) (int c)
               + pixel img (int r - 1) (int c + 1)))
          [0..<shape1 img]) [0..<length img]"

definition arctan2 :: "real \<Rightarrow> real \<Rightarrow> real" where
  \<comment> \<open>\<open>np.arctan2(y, x)\<close>\<close>
  "arctan2 gy gx =
     (if gx > 0 then arctan (gy / gx)
      else if gx < 0 \<and> gy \<ge> 0 then arctan (gy / gx) + pi
      else if gx < 0 \<and> gy < 0 then arctan (gy / gx) - pi
      else if gy > 0 then pi / 2
      else if gy < 0 then - pi / 2
      else 0)"

definition bin_of :: "nat \<Rightarrow> real \<Rightarrow> real \<Rightarrow> real \<Rightarrow> nat option" where
  \<comment> \<open>The bin of a value among \<open>bins\<close> equal bins over \<open>[lo, hi]\<close>; the last bin is closed
      on the right, values outside the range are not counted.\<close>
  "bin_of bins lo hi a =
     (if a < lo \<or> a > hi then None
      else if a = hi then Some (bins - 1)
      else Some (nat \<lfloor>(a - lo) / (hi - lo) * real bins\<rfloor>))"

definition histogram :: "real list \<Rightarrow> nat \<Rightarrow> real list \<Rightarrow> real \<Rightarrow> real \<Rightarrow> real list" where
  \<comment> \<open>\<open>np.histogram(a, bins=bins, weights=weights, range=(lo, hi))[0]\<close>\<close>
  "histogram a bins weights lo hi =
     map (\<lambda>b. sum_list (map snd (filter (\<lambda>(v, w). bin_of bins lo hi v = Some b) (zip a weights))))
         [0..<bins]"

definition cell_of :: "'a list list \<Rightarrow> nat \<Rightarrow> nat \<Rightarrow> nat \<Rightarrow> nat \<Rightarrow> 'a list" where
  \<comment> \<open>\<open>m[y_start:y_end, x_start:x_end].flatten()\<close>, for bounds that are not negative\<close>
  "cell_of m y_start y_end x_start x_end =
     concat (map (\<lambda>row. take (x_end - x_start) (drop x_start row))
                 (take (y_end - y_start) (drop y_start m)))"

definition compute_hog_features :: "real list list \<Rightarrow> real list" where
  \<comment> \<open>\<open>_compute_hog_features\<close> on a two-dimensional grey image. The handler that answers
      an exception with random features is not reached on such an input.\<close>
  "compute_hog_features face_gray =
     (let grad_x = sobel_x face_gray;
          grad_y = sobel_y face_gray;
          magnitude = map2 (map2 (\<lambda>gx gy. sqrt (gx * gx + gy * gy))) grad_x grad_y;
          angle = map2 (map2 (\<lambda>gx gy. arctan2 gy gx)) grad_x grad_y;
          cell_size = 16;
          h = length face_gray;
          w = shape1 face_gray;
          cells_x = w div cell_size;
          cells_y = h div cell_size;
          features =
            concat (map (\<lambda>i. concat (map (\<lambda>j.
              let y_start = i * cell_size;
                  y_end = min ((i + 1) * cell_size) h;
                  x_start = j * cell_size;
                  x_end = min ((j + 1) * cell_size) w;
                  cell_magnitude = cell_of magnitude y_start y_end x_start x_end;
                  cell_angle = cell_of angle y_start y_end x_start x_end
              in histogram cell_angle 9 cell_magnitude (- pi) pi) [0..<cells_x])) [0..<cells_y])
      in if length features > 128 then take 128 features
         else if length features < 128 then features @ replicate (128 - length features) 0
         else features)"

definition face_region :: "rgb_image \<Rightarrow> bounding_box \<Rightarrow> rgb_image" where
  \<comment> \<open>The crop \<open>image[y_start:y_end, x_start:x_end]\<close> of \<open>generate_face_encoding\<close>: the
      bounding box with a padding of 20 pixels, clipped to the image.\<close>
  "face_region img face_bbox =
     (let x = bb_x face_bbox;
          y = bb_y face_bbox;
          w = bb_width face_bbox;
          h = bb_height face_bbox;
          padding = 20;
          x_start = max 0 (x - padding);
          y_start = max 0 (y - padding);
          x_end = min (int (shape1 img)) (x + w + padding);
          y_end = min (int (length img)) (y + h + padding)
      in map (\<lambda>row. py_slice row x_start x_end) (py_slice img y_start y_end))"

definition generate_face_encoding ::
  "(rgb_image \<Rightarrow> real list list) \<Rightarrow> rgb_image \<Rightarrow> bounding_box \<Rightarrow> py_error + flt list" where
  \<comment> \<open>\<open>to_gray\<close> stands for the two OpenCV calls, \<open>cv2.resize(region, (128, 128))\<close> and
      \<open>cv2.cvtColor(..., cv2.COLOR_RGB2GRAY)\<close>, on a region that is not empty. The
      \<open>ValueError\<close> of an empty region is caught and raised again as a \<open>RuntimeError\<close>.\<close>
  "generate_face_encoding to_gray img face_bbox =
     (let region = face_region img face_bbox
      in if length region * shape1 region = 0
         then Inl (RuntimeError ''Face encoding generation failed: Invalid face region'')
         else
           let face_gray = to_gray region;
               encoding = map Fin (compute_hog_features face_gray)
           in Inr (np_normalize encoding))"

section \<open>Recognition\<close>

record detection =
  bounding_box :: bounding_box
  confidence :: real
  detection_id :: nat

record processed_face = detection +
  encoding :: "flt list"
  name :: pyval
  best_similarity :: real
  is_recognized :: bool
  matches :: "face_match list"

definition process_face ::
  "(rgb_image \<Rightarrow> real list list) \<Rightarrow> faiss_manager \<Rightarrow> rgb_image \<Rightarrow> detection
     \<Rightarrow> py_error + processed_face" where
  \<comment> \<open>The body of the inner \<open>try\<close>: only the encoding can raise, both searches catch
      their own exceptions.\<close>
  "process_face to_gray s img face =
     (case generate_face_encoding to_gray img (bounding_box face) of
        Inl e \<Rightarrow> Inl e
      | Inr enc \<Rightarrow>
          let ms = search_similar_faces s enc 3;
              best_match = get_best_match s enc;
              (recognized_name, sim, recognized) =
                (case best_match of
                   Some b \<Rightarrow> (person_name b, similarity b, True)
                 | None \<Rightarrow> (PStr ''Unknown'', 0, False))
          in Inr \<lparr>bounding_box = bounding_box face,
                  confidence = confidence face,
                  detection_id = detection_id face,
                  encoding = enc,
                  name = recognized_name,
                  best_similarity = sim,
                  is_recognized = recognized,
                  matches = take 3 ms\<rparr>)"

fun process_faces ::
  "(rgb_image \<Rightarrow> real list list) \<Rightarrow> faiss_manager \<Rightarrow> rgb_image
     \<Rightarrow> processed_face list \<times> nat list \<Rightarrow> detection list \<Rightarrow> processed_face list \<times> nat list" where
  \<comment> \<open>The loop over the detections, with the faces processed and the warnings logged so
      far: a face whose processing raises is logged by its \<open>detection_id\<close> and skipped.\<close>
  "process_faces to_gray s img (processed_faces, warnings) [] = (processed_faces, warnings)"
| "process_faces to_gray s img (processed_faces, warnings) (face # rest) =
     (case process_face to_gray s img face of
        Inr r \<Rightarrow> process_faces to_gray s img (processed_faces @ [r], warnings) rest
      | Inl e \<Rightarrow> process_faces to_gray s img (processed_faces, warnings @ [detection_id face]) rest)"

datatype recognition_result =
    Failure py_error
  | NoFaces
  | Faces "processed_face list" nat nat

definition process_image_for_recognition ::
  "('b \<Rightarrow> py_error + rgb_image) \<Rightarrow> (rgb_image \<Rightarrow> py_error + detection list)
     \<Rightarrow> (rgb_image \<Rightarrow> real list list) \<Rightarrow> faiss_manager \<Rightarrow> 'b
     \<Rightarrow> recognition_result \<times> nat list" where
  \<comment> \<open>\<open>preprocess_image\<close> (PIL) and \<open>detect_faces\<close> (MediaPipe) are the external steps; the
      second component is the list of \<open>detection_id\<close>s of the warnings logged.\<close>
  "process_image_for_recognition preprocess_image detect_faces to_gray s image_data =
     (case preprocess_image image_data of
        Inl e \<Rightarrow> (Failure e, [])
      | Inr img \<Rightarrow>
          (case detect_faces img of
             Inl e \<Rightarrow> (Failure e, [])
           | Inr detected_faces \<Rightarrow>
               if detected_faces = [] then (NoFaces, [])
               else
                 let (processed_faces, warnings) =
                       process_faces to_gray s img ([], []) detected_faces
                 in (Faces processed_faces (length detected_faces) (length processed_faces),
                     warnings)))"

section \<open>The life of a manager\<close>





definition no_files :: storage where
  "no_files = \<lparr>index_file = Missing, metadata_file = Missing,
                index_writable = True, metadata_writable = True\<rparr>"







definition py_int :: "bool \<Rightarrow> int" where
  \<comment> \<open>The integer that Python reads a \<open>bool\<close> as: \<open>True == 1\<close> and \<open>False == 0\<close>.\<close>
  "py_int b = (if b then 1 else 0)"

section \<open>Notions used in the statements\<close>

definition accepted :: "real \<Rightarrow> real \<Rightarrow> bool" where
  \<comment> \<open>The threshold test of \<open>search_similar_faces\<close> on a distance.\<close>
  "accepted t dd \<longleftrightarrow> max 0 (1 - dd) \<ge> 1 - t"

definition search_candidates :: "faiss_manager \<Rightarrow> flt list \<Rightarrow> int \<Rightarrow> (real \<times> int) list" where
  \<comment> \<open>The pairs of distance and label that the loop of \<open>search_similar_faces\<close> goes
      through; there are none when the function returns before the loop.\<close>
  "search_candidates s query_encoding k =
     (if ntotal s = 0 \<or> length query_encoding \<noteq> dimension s \<or> min k (int (ntotal s)) \<le> 0 then []
      else index_search (index s) (np_normalize query_encoding) (nat (min k (int (ntotal s)))))"

definition nearer :: "real \<times> int \<Rightarrow> real \<times> int \<Rightarrow> bool" where
  \<comment> \<open>A smaller distance, or the same distance at a lower position.\<close>
  "nearer a b \<longleftrightarrow> fst a < fst b \<or> (fst a = fst b \<and> snd a < snd b)"

section \<open>A small index\<close>

definition unit0 :: "flt list" where
  "unit0 = Fin 1 # replicate 127 (Fin 0)"

definition unit1 :: "flt list" where
  "unit1 = Fin 0 # Fin 1 # replicate 126 (Fin 0)"

definition two_faces :: faiss_manager where
  \<comment> \<open>A first start without files, then Alice and Bob are added.\<close>
  "two_faces =
     (case add_face_encoding (FAISSManager no_files) no_files unit0 ''Alice_0'' ''Alice'' None of
        (ok, s1, disk1) \<Rightarrow>
          (case add_face_encoding s1 disk1 unit1 ''Bob_1'' ''Bob'' None of
             (ok', s2, disk2) \<Rightarrow> s2))"

section \<open>Two small images\<close>

definition grey_values :: "rgb_image \<Rightarrow> real list list" where
  \<comment> \<open>What the two OpenCV calls give on an image of 128 by 128 grey pixels \<open>(v, v, v)\<close>:
      the resize changes nothing, and the grey value of such a pixel is \<open>v\<close>.\<close>
  "grey_values img = map (map (\<lambda>(r, g, b). real r)) img"

definition black_image :: rgb_image where
  "black_image = replicate 128 (replicate 128 (0, 0, 0))"

definition edge_image :: rgb_image where
  \<comment> \<open>A dark first column, the other columns lighter.\<close>
  "edge_image = replicate 128 ((0, 0, 0) # replicate 127 (1, 1, 1))"

definition whole_box :: bounding_box where
  "whole_box = \<lparr>bb_x = 0, bb_y = 0, bb_width = 128, bb_height = 128\<rparr>"

definition edge_row :: "real list" where
  \<comment> \<open>The grey values of a row of \<open>edge_image\<close>.\<close>
  "edge_row = 0 # replicate 127 1"

section \<open>Properties: keys and the pairing of vectors with records\<close>

declare str_nat.simps [simp del]



























section \<open>Properties: normalization\<close>

lemma the_fins_map_Fin: "the_fins (map (\<lambda>x. Fin (g x)) xs) = Some (map g xs)"
  by (induction xs) auto

lemma the_fins_length: "the_fins v = Some xs \<Longrightarrow> length xs = length v"
proof (induction v arbitrary: xs)
  case Nil
  then show ?case by simp
next
  case (Cons a v)
  then show ?case by (cases a) auto
qed

lemma the_fins_replicate_Fin: "the_fins (replicate n (Fin c)) = Some (replicate n c)"
  by (induction n) auto

lemma the_fins_replicate_NaN: "0 < n \<Longrightarrow> the_fins (replicate n NaN) = None"
  by (cases n) auto

lemma sum_squares_nonneg: "0 \<le> sum_squares xs"
  unfolding sum_squares_def by (induction xs) auto

lemma sum_squares_scale: "sum_squares (map (\<lambda>x. x / n) xs) = sum_squares xs / (n * n)"
  unfolding sum_squares_def by (induction xs) (auto simp: add_divide_distrib)

lemma sum_squares_replicate_0: "sum_squares (replicate n 0) = 0"
  unfolding sum_squares_def by (induction n) auto

lemma np_normalize_fin:
  assumes "the_fins v = Some xs" "sum_squares xs \<noteq> 0"
  shows "np_normalize v = map (\<lambda>x. Fin (x / sqrt (sum_squares xs))) xs"
  using assms by (simp add: np_normalize_def linalg_norm_def)

lemma np_normalize_zero:
  assumes "the_fins v = Some xs" "sum_squares xs = 0"
  shows "np_normalize v = replicate (length v) NaN"
  using assms by (simp add: np_normalize_def linalg_norm_def)

lemma length_np_normalize: "length (np_normalize v) = length v"
  by (auto simp: np_normalize_def linalg_norm_def the_fins_length split: option.splits flt.splits)

lemma norm_np_normalize:
  assumes "the_fins v = Some xs" "sum_squares xs \<noteq> 0"
  shows "linalg_norm (np_normalize v) = Fin 1"
proof -
  let ?n = "sqrt (sum_squares xs)"
  have pos: "0 < sum_squares xs"
    using assms(2) sum_squares_nonneg [of xs] by simp
  have "?n * ?n = sum_squares xs"
    using pos by simp
  then have "sum_squares (map (\<lambda>x. x / ?n) xs) = 1"
    using pos by (simp add: sum_squares_scale)
  then show ?thesis
    by (simp add: np_normalize_fin [OF assms] linalg_norm_def the_fins_map_Fin)
qed

section \<open>Properties: adding an encoding\<close>

lemma build_metadata_position:
  "build_metadata f p n a ''index_position'' =
     (case a of None \<Rightarrow> Some (PInt n)
      | Some m \<Rightarrow> (case m ''index_position'' of None \<Rightarrow> Some (PInt n) | Some v \<Rightarrow> Some v))"
  by (auto simp: build_metadata_def Let_def map_add_def split: option.splits)

text \<open>
  Claim C4, as stated, at the vector of 128 zeros: the addition succeeds, and what it
  stores is not a unit vector but 128 times not-a-number, since the division by the norm
  0 is not guarded.
\<close>

theorem add_zero_vector_counterexample:
  "(case add_face_encoding (FAISSManager no_files) no_files (replicate 128 (Fin 0)) ''z_0'' ''Zed'' None of
      (ok, s', disk') \<Rightarrow> ok \<and> index s' = [replicate 128 NaN] \<and>
         linalg_norm (index s' ! 0) \<noteq> Fin 1)"
proof -
  have "np_normalize (replicate 128 (Fin 0)) = replicate 128 NaN"
    using np_normalize_zero [OF the_fins_replicate_Fin [of 128 0]] sum_squares_replicate_0 by simp
  moreover have "linalg_norm (replicate 128 NaN) = NaN"
    by (simp add: linalg_norm_def the_fins_replicate_NaN)
  ultimately show ?thesis
    by (simp add: add_face_encoding_def FAISSManager_def initialize_index_def no_files_def
        new_index_def Let_def)
qed

text \<open>
  Claim C4, amended. An input whose number of elements is not 128 is rejected: the
  addition returns False and leaves the manager and the files as they were. An input of
  128 finite elements that are not all zero is divided by its norm, the result has norm
  1, and it is appended to the index.
\<close>

theorem add_face_encoding_dimension:
  assumes "dimension s = 128"
  shows "(length e \<noteq> 128 \<longrightarrow> add_face_encoding s disk e f p a = (False, s, disk)) \<and>
         (length e = 128 \<and> the_fins e = Some xs \<and> sum_squares xs \<noteq> 0 \<longrightarrow>
            (\<exists>s' disk'. add_face_encoding s disk e f p a = (True, s', disk') \<and>
               index s' = index s @ [np_normalize e] \<and>
               linalg_norm (np_normalize e) = Fin 1))"
  using assms by (auto simp: add_face_encoding_def Let_def norm_np_normalize)

theorem add_face_encoding_dimension_witness:
  "dimension (FAISSManager no_files) = 128 \<and>
   add_face_encoding (FAISSManager no_files) no_files [Fin 3, Fin 4] ''a_0'' ''Ann'' None
     = (False, FAISSManager no_files, no_files) \<and>
   (\<exists>s' disk'. add_face_encoding (FAISSManager no_files) no_files
                  (Fin 3 # Fin 4 # replicate 126 (Fin 0)) ''a_0'' ''Ann'' None = (True, s', disk') \<and>
      index s' = index (FAISSManager no_files) @ [np_normalize (Fin 3 # Fin 4 # replicate 126 (Fin 0))] \<and>
      linalg_norm (np_normalize (Fin 3 # Fin 4 # replicate 126 (Fin 0))) = Fin 1)"
proof -
  have d: "dimension (FAISSManager no_files) = 128"
    by (simp add: FAISSManager_def initialize_index_def no_files_def new_index_def)
  have f: "the_fins (Fin 3 # Fin 4 # replicate 126 (Fin 0)) = Some (3 # 4 # replicate 126 0)"
    by (simp add: the_fins_replicate_Fin)
  have q: "sum_squares (3 # 4 # replicate 126 0) \<noteq> 0"
    using sum_squares_replicate_0 [of 126] by (simp add: sum_squares_def)
  show ?thesis
    using add_face_encoding_dimension [OF d, where e = "[Fin 3, Fin 4]" and disk = no_files
            and f = "''a_0''" and p = "''Ann''" and a = None]
          add_face_encoding_dimension [OF d, where e = "Fin 3 # Fin 4 # replicate 126 (Fin 0)"
            and xs = "3 # 4 # replicate 126 0" and disk = no_files
            and f = "''a_0''" and p = "''Ann''" and a = None]
          d f q
    by simp
qed

text \<open>
  Claim C5, as stated, at the first addition to an empty index: the value returned is
  True, which Python reads as 1, and the number of vectors before the insertion is 0.
\<close>

theorem add_returns_position_counterexample:
  "(case add_face_encoding (FAISSManager no_files) no_files (Fin 1 # replicate 127 (Fin 0))
           ''Alice_0'' ''Alice'' None of
      (ok, s', disk') \<Rightarrow> ok \<and> ntotal (FAISSManager no_files) = 0 \<and>
         py_int ok \<noteq> int (ntotal (FAISSManager no_files)))"
  by (simp add: add_face_encoding_def FAISSManager_def initialize_index_def no_files_def
        new_index_def ntotal_def py_int_def Let_def)

text \<open>
  Claim C5, amended. An addition of 128 elements returns True, not a position. The new
  vector is stored at the position equal to the number of vectors before the insertion;
  that position, as a string, is the key of the new record, and it is the
  \<open>index_position\<close> field of the record unless the additional metadata of the caller
  bring a field of that name.
\<close>

theorem add_position:
  assumes "dimension s = 128" "length e = 128"
  shows "\<exists>s' disk'. add_face_encoding s disk e f p a = (True, s', disk') \<and>
           ntotal s' = ntotal s + 1 \<and> index s' ! ntotal s = np_normalize e \<and>
           metadata s' (py_str (int (ntotal s))) = Some (build_metadata f p (int (ntotal s)) a) \<and>
           build_metadata f p (int (ntotal s)) a ''index_position'' =
             (case a of None \<Rightarrow> Some (PInt (int (ntotal s)))
              | Some m \<Rightarrow> (case m ''index_position'' of
                             None \<Rightarrow> Some (PInt (int (ntotal s))) | Some v \<Rightarrow> Some v))"
  unfolding ntotal_def using assms
  by (simp add: add_face_encoding_def Let_def ntotal_def build_metadata_position)

theorem add_position_witness:
  "\<exists>s' disk'. add_face_encoding (FAISSManager no_files) no_files (Fin 1 # replicate 127 (Fin 0))
           ''Alice_0'' ''Alice'' None = (True, s', disk') \<and> ntotal s' = 1 \<and>
         index s' ! 0 = np_normalize (Fin 1 # replicate 127 (Fin 0)) \<and>
         metadata s' ''0'' = Some (build_metadata ''Alice_0'' ''Alice'' 0 None) \<and>
         build_metadata ''Alice_0'' ''Alice'' 0 None ''index_position'' = Some (PInt 0)"
proof -
  have d: "dimension (FAISSManager no_files) = 128"
    by (simp add: FAISSManager_def initialize_index_def no_files_def new_index_def)
  have l: "length (Fin 1 # replicate 127 (Fin 0)) = 128"
    by simp
  have n: "ntotal (FAISSManager no_files) = 0"
    by (simp add: FAISSManager_def initialize_index_def no_files_def new_index_def ntotal_def)
  have k: "py_str 0 = ''0''"
    by code_simp
  show ?thesis
    using add_position [OF d l, of no_files "''Alice_0''" "''Alice''" None] n k by simp
qed

section \<open>Properties: saving and loading\<close>

text \<open>
  Claim C6. Loading the snapshot that \<open>_save_index\<close> wrote, both files being writable,
  gives back the same vectors and the same mapping from keys to records, whatever the
  manager and the files were before: both in a manager constructed anew and in
  \<open>_initialize_index\<close> called on the manager itself.
\<close>

theorem save_load_roundtrip:
  assumes "index_writable disk" "metadata_writable disk"
  shows "index (FAISSManager (save_index s disk)) = index s \<and>
   metadata (FAISSManager (save_index s disk)) = metadata s \<and>
   index (initialize_index s (save_index s disk)) = index s \<and>
   metadata (initialize_index s (save_index s disk)) = metadata s"
  using assms by (simp add: FAISSManager_def initialize_index_def save_index_def Let_def)

theorem save_load_roundtrip_witness:
  "index_writable no_files \<and> metadata_writable no_files \<and>
   index (FAISSManager (save_index two_faces no_files)) = index two_faces \<and>
   metadata (FAISSManager (save_index two_faces no_files)) = metadata two_faces \<and>
   index (initialize_index two_faces (save_index two_faces no_files)) = index two_faces \<and>
   metadata (initialize_index two_faces (save_index two_faces no_files)) = metadata two_faces"
proof -
  have w: "index_writable no_files" "metadata_writable no_files"
    by (simp_all add: no_files_def)
  show ?thesis
    using save_load_roundtrip [OF w, of two_faces] w by simp
qed

section \<open>Properties: the search\<close>

lemma search_via_candidates:
  "search_similar_faces s q k = collect_matches s 0 (search_candidates s q k)"
  by (auto simp: search_similar_faces_def search_candidates_def Let_def)

lemma collect_matches_pairs:
  "map (\<lambda>m. (distance m, index_position m)) (collect_matches s i xs)
     = filter (\<lambda>(dd, idx). idx \<noteq> - 1 \<and> accepted (threshold s) dd) xs"
  by (induction s i xs rule: collect_matches.induct) (auto simp: accepted_def Let_def)

lemma collect_matches_similarity:
  "m \<in> set (collect_matches s i xs) \<Longrightarrow> similarity m = max 0 (1 - distance m)"
  by (induction s i xs rule: collect_matches.induct) (auto simp: Let_def split: if_splits)





lemma accepted_mono: "accepted t1 dd \<Longrightarrow> t1 \<le> t2 \<Longrightarrow> accepted t2 dd"
  by (auto simp: accepted_def)





lemma nearer_insort:
  "sorted_wrt nearer ys \<Longrightarrow> \<forall>y\<in>set ys. snd x < snd y \<Longrightarrow> sorted_wrt nearer (insort_key fst x ys)"
proof (induction ys)
  case Nil
  then show ?case by simp
next
  case (Cons y ys)
  show ?case
  proof (cases "fst x \<le> fst y")
    case True
    have "nearer x z" if "z \<in> set (y # ys)" for z
    proof -
      have "fst y \<le> fst z" using that Cons.prems(1) by (auto simp: nearer_def)
      then show ?thesis using True Cons.prems(2) that by (auto simp: nearer_def)
    qed
    then show ?thesis using True Cons.prems(1) by auto
  next
    case False
    then have "nearer y x" by (simp add: nearer_def)
    then show ?thesis using False Cons by (auto simp: set_insort_key)
  qed
qed

lemma nearer_sort_key:
  "sorted_wrt (<) (map snd xs) \<Longrightarrow> sorted_wrt nearer (sort_key fst xs)"
proof (induction xs)
  case Nil
  then show ?case by simp
next
  case (Cons x xs)
  then show ?case by (auto intro!: nearer_insort)
qed


lemma candidates_from_mem:
  "(dd, j) \<in> set (concat (map (\<lambda>(i, v). case l2sqr q v of Fin dd \<Rightarrow> [(dd, int i)] | NaN \<Rightarrow> [])
                              (enumerate n xb)))
     \<longleftrightarrow> (\<exists>i. j = int i \<and> n \<le> i \<and> i < n + length xb \<and> l2sqr q (xb ! (i - n)) = Fin dd)"
proof (induction xb arbitrary: n)
  case Nil
  then show ?case by simp
next
  case (Cons v xb)
  have step: "(\<exists>i. j = int i \<and> n \<le> i \<and> i < n + length (v # xb) \<and> l2sqr q ((v # xb) ! (i - n)) = Fin dd)
     \<longleftrightarrow> (j = int n \<and> l2sqr q v = Fin dd) \<or>
         (\<exists>i. j = int i \<and> Suc n \<le> i \<and> i < Suc n + length xb \<and> l2sqr q (xb ! (i - Suc n)) = Fin dd)"
    (is "?L \<longleftrightarrow> ?A \<or> ?B")
  proof
    assume ?L
    then obtain i where i: "j = int i" "n \<le> i" "i < n + length (v # xb)"
      "l2sqr q ((v # xb) ! (i - n)) = Fin dd" by blast
    show "?A \<or> ?B"
    proof (cases "i = n")
      case True
      then show ?thesis using i by simp
    next
      case False
      then have "Suc n \<le> i" "(v # xb) ! (i - n) = xb ! (i - Suc n)"
        using i(2) by (auto simp: nth_Cons' Suc_diff_Suc)
      then show ?thesis using i by auto
    qed
  next
    assume "?A \<or> ?B"
    then show ?L
    proof
      assume ?A
      then show ?L by (intro exI [of _ n]) simp
    next
      assume ?B
      then obtain i where i: "j = int i" "Suc n \<le> i" "i < Suc n + length xb"
        "l2sqr q (xb ! (i - Suc n)) = Fin dd" by blast
      then have "(v # xb) ! (i - n) = xb ! (i - Suc n)"
        by (auto simp: nth_Cons' Suc_diff_Suc)
      then show ?L using i by (intro exI [of _ i]) simp
    qed
  qed
  show ?case
    unfolding step using Cons.IH [of "Suc n"]
    by (cases "l2sqr q v") auto
qed

lemma candidates_mem:
  "(dd, j) \<in> set (candidates xb q)
     \<longleftrightarrow> (\<exists>i. j = int i \<and> i < length xb \<and> l2sqr q (xb ! i) = Fin dd)"
  unfolding candidates_def using candidates_from_mem [of dd j q 0 xb] by simp

lemma candidates_from_sorted:
  "sorted_wrt (<) (map snd (concat (map (\<lambda>(i, v). case l2sqr q v of Fin dd \<Rightarrow> [(dd, int i)] | NaN \<Rightarrow> [])
                                        (enumerate n xb))))"
proof (induction xb arbitrary: n)
  case Nil
  then show ?case by simp
next
  case (Cons v xb)
  have "int n < snd y"
    if "y \<in> set (concat (map (\<lambda>(i, v). case l2sqr q v of Fin dd \<Rightarrow> [(dd, int i)] | NaN \<Rightarrow> [])
                              (enumerate (Suc n) xb)))" for y
    using that candidates_from_mem [of "fst y" "snd y" q "Suc n" xb] by auto
  then show ?case
    using Cons.IH [of "Suc n"] by (cases "l2sqr q v") auto
qed

lemma candidates_sorted: "sorted_wrt (<) (map snd (candidates xb q))"
  unfolding candidates_def by (rule candidates_from_sorted)

lemma nearer_le: "nearer a b \<Longrightarrow> fst a \<le> fst b"
  by (auto simp: nearer_def)

lemma found_nearer: "sorted_wrt nearer (take k (sort_key fst (candidates xb q)))"
  by (simp add: nearer_sort_key candidates_sorted)


lemma found_labels:
  "x \<in> set (take k (sort_key fst (candidates xb q))) \<Longrightarrow> snd x \<noteq> - 1"
proof -
  assume "x \<in> set (take k (sort_key fst (candidates xb q)))"
  then have "(fst x, snd x) \<in> set (candidates xb q)"
    using set_take_subset by fastforce
  then show ?thesis
    unfolding candidates_mem by auto
qed

lemma filter_pads:
  "filter (\<lambda>(dd, idx). idx \<noteq> - 1 \<and> P dd) (replicate n (c, - 1)) = []"
  by (induction n) auto

lemma filter_found:
  "filter (\<lambda>(dd, idx). idx \<noteq> - 1 \<and> P dd) (take k (sort_key fst (candidates xb q)))
     = filter (\<lambda>(dd, idx). P dd) (take k (sort_key fst (candidates xb q)))"
proof (rule filter_cong)
  fix x assume x: "x \<in> set (take k (sort_key fst (candidates xb q)))"
  obtain dd idx where p: "x = (dd, idx)" by (cases x)
  have "idx \<noteq> - 1" using found_labels [OF x] p by simp
  then show "(case x of (dd, idx) \<Rightarrow> idx \<noteq> - 1 \<and> P dd) = (case x of (dd, idx) \<Rightarrow> P dd)"
    using p by simp
qed simp

lemma length_index_search: "length (index_search xb q k) = k"
  by (simp add: index_search_def Let_def)

lemma search_candidates_cases:
  "search_candidates s q k = [] \<or>
   search_candidates s q k =
     take (nat (min k (int (ntotal s)))) (sort_key fst (candidates (index s) (np_normalize q)))
       @ replicate (nat (min k (int (ntotal s)))
                     - length (take (nat (min k (int (ntotal s))))
                                 (sort_key fst (candidates (index s) (np_normalize q)))))
           (FLT_MAX, - 1)"
  by (simp add: search_candidates_def index_search_def Let_def)

lemma length_search_candidates: "length (search_candidates s q k) \<le> nat (min k (int (ntotal s)))"
  by (simp add: search_candidates_def length_index_search)

lemma search_pairs:
  "map (\<lambda>m. (distance m, index_position m)) (search_similar_faces s q k)
     = filter (\<lambda>(dd, idx). idx \<noteq> - 1 \<and> accepted (threshold s) dd) (search_candidates s q k)"
  by (simp add: search_via_candidates collect_matches_pairs)

lemma length_search:
  "length (search_similar_faces s q k)
     = length (filter (\<lambda>(dd, idx). idx \<noteq> - 1 \<and> accepted (threshold s) dd) (search_candidates s q k))"
  using search_pairs [of s q k] by (metis length_map)

text \<open>
  Claim C2. On an empty index the search returns the empty list. On every index it
  returns at most \<open>min(k, ntotal)\<close> entries (none when that number is not positive), in
  the order of non-decreasing distance, and of two entries at the same distance the one
  at the lower position comes first. The order among equal distances is that of the
  library search as modelled in \<open>index_search\<close>.
\<close>

theorem search_sorted:
  "(ntotal s = 0 \<longrightarrow> search_similar_faces s q k = []) \<and>
   length (search_similar_faces s q k) \<le> nat (min k (int (ntotal s))) \<and>
   sorted (map distance (search_similar_faces s q k)) \<and>
   sorted_wrt nearer (map (\<lambda>m. (distance m, index_position m)) (search_similar_faces s q k))"
proof -
  let ?r = "search_similar_faces s q k"
  let ?pairs = "map (\<lambda>m. (distance m, index_position m)) ?r"
  have e: "ntotal s = 0 \<longrightarrow> ?r = []"
    by (simp add: search_similar_faces_def)
  have "length ?r \<le> length (search_candidates s q k)"
    unfolding length_search by simp
  then have l: "length ?r \<le> nat (min k (int (ntotal s)))"
    using length_search_candidates [of s q k] by simp
  have n: "sorted_wrt nearer ?pairs"
    using search_candidates_cases [of s q k]
  proof
    assume "search_candidates s q k = []"
    then show ?thesis by (simp add: search_pairs)
  next
    assume c: "search_candidates s q k =
     take (nat (min k (int (ntotal s)))) (sort_key fst (candidates (index s) (np_normalize q)))
       @ replicate (nat (min k (int (ntotal s)))
                     - length (take (nat (min k (int (ntotal s))))
                                 (sort_key fst (candidates (index s) (np_normalize q)))))
           (FLT_MAX, - 1)"
    show ?thesis
      unfolding search_pairs c
      by (simp add: filter_pads filter_found sorted_wrt_filter found_nearer)
  qed
  have "sorted_wrt (\<lambda>a b. fst a \<le> fst b) ?pairs"
    using n by (rule sorted_wrt_mono_rel [rotated]) (simp add: nearer_le)
  then have d: "sorted (map distance ?r)"
    by (simp add: sorted_map sorted_wrt_map)
  show ?thesis using e l d n by blast
qed

subsection \<open>The index of Alice and Bob, evaluated\<close>

lemma l2sqr_fins:
  "the_fins a = Some xs \<Longrightarrow> the_fins b = Some ys \<Longrightarrow>
     l2sqr a b = Fin (sum_list (map (\<lambda>(x, y). (x - y) * (x - y)) (zip xs ys)))"
  by (simp add: l2sqr_def)

lemma the_fins_unit0: "the_fins unit0 = Some (1 # replicate 127 0)"
  by (simp add: unit0_def the_fins_replicate_Fin)

lemma the_fins_unit1: "the_fins unit1 = Some (0 # 1 # replicate 126 0)"
  by (simp add: unit1_def the_fins_replicate_Fin)

lemma np_normalize_unit0: "np_normalize unit0 = unit0"
proof -
  have "sum_squares (1 # replicate 127 0) = 1"
    using sum_squares_replicate_0 [of 127] by (simp add: sum_squares_def)
  then show ?thesis
    using np_normalize_fin [OF the_fins_unit0] by (simp add: unit0_def)
qed

lemma np_normalize_unit1: "np_normalize unit1 = unit1"
proof -
  have "sum_squares (0 # 1 # replicate 126 0) = 1"
    using sum_squares_replicate_0 [of 126] by (simp add: sum_squares_def)
  then show ?thesis
    using np_normalize_fin [OF the_fins_unit1] by (simp add: unit1_def)
qed

lemma l2sqr_unit0_unit0: "l2sqr unit0 unit0 = Fin 0"
  by (simp add: l2sqr_fins [OF the_fins_unit0 the_fins_unit0] sum_list_replicate)

lemma l2sqr_unit0_unit1: "l2sqr unit0 unit1 = Fin 2"
proof -
  have "replicate 127 (0::real) = 0 # replicate 126 0"
    by (simp add: replicate_Suc [symmetric] del: replicate_Suc)
  then show ?thesis
    by (simp add: l2sqr_fins [OF the_fins_unit0 the_fins_unit1] sum_list_replicate)
qed

lemma py_str_0: "py_str 0 = ''0''"
  by code_simp

lemma py_str_1: "py_str 1 = ''1''"
  by code_simp

lemma length_units: "length unit0 = 128" "length unit1 = 128"
  by (simp_all add: unit0_def unit1_def)

lemma two_faces_fields:
  "index two_faces = [unit0, unit1]"
  "metadata two_faces = [''0'' \<mapsto> build_metadata ''Alice_0'' ''Alice'' 0 None,
                         ''1'' \<mapsto> build_metadata ''Bob_1'' ''Bob'' 1 None]"
  "dimension two_faces = 128"
  "threshold two_faces = 6 / 10"
  by (simp_all add: two_faces_def add_face_encoding_def FAISSManager_def
        initialize_index_def no_files_def new_index_def Let_def ntotal_def
        np_normalize_unit0 np_normalize_unit1 py_str_0 py_str_1 length_units)


lemma candidates_two_faces: "candidates [unit0, unit1] unit0 = [(0, 0), (2, 1)]"
  by (simp add: candidates_def l2sqr_unit0_unit0 l2sqr_unit0_unit1)

lemma search_candidates_two_faces: "search_candidates two_faces unit0 5 = [(0, 0), (2, 1)]"
  by (simp add: search_candidates_def two_faces_fields ntotal_def length_units index_search_def
        np_normalize_unit0 candidates_two_faces)

lemma search_candidates_threshold [simp]:
  "search_candidates (s\<lparr>threshold := t\<rparr>) q k = search_candidates s q k"
  by (simp add: search_candidates_def ntotal_def)

lemma search_two_faces:
  "search_similar_faces two_faces unit0 5 =
     [\<lparr>face_id = PStr ''Alice_0'', person_name = PStr ''Alice'', similarity = 1, distance = 0,
       index_position = 0, rank = 1\<rparr>]"
  by (simp add: search_via_candidates search_candidates_two_faces two_faces_fields py_str_0
        lookup_field_def build_metadata_def)

lemma search_two_faces_wide:
  "length (search_similar_faces (two_faces\<lparr>threshold := 3 / 2\<rparr>) unit0 5) = 2"
  by (simp add: search_via_candidates search_candidates_two_faces Let_def)

lemma search_two_faces_narrow:
  "length (search_similar_faces (two_faces\<lparr>threshold := 6 / 10\<rparr>) unit0 5) = 1"
  by (simp add: search_via_candidates search_candidates_two_faces Let_def)

theorem search_sorted_witness:
  "ntotal (FAISSManager no_files) = 0 \<and>
   search_similar_faces (FAISSManager no_files) unit0 5 = [] \<and>
   length (search_similar_faces two_faces unit0 5) \<le> nat (min 5 (int (ntotal two_faces))) \<and>
   sorted (map distance (search_similar_faces two_faces unit0 5))"
proof -
  have n: "ntotal (FAISSManager no_files) = 0"
    by (simp add: FAISSManager_def initialize_index_def no_files_def new_index_def ntotal_def)
  show ?thesis
    using search_sorted [of "FAISSManager no_files" unit0 5] search_sorted [of two_faces unit0 5] n
    by simp
qed

text \<open>
  Claim C7. Every entry that the search returns has the similarity
  \<open>max(0, 1 - distance)\<close>, where the distance is the squared Euclidean distance between
  the normalized query and the vector stored at the entry's position; a candidate of the
  library search, other than the filler \<open>-1\<close>, is among the entries returned exactly when
  its similarity is at least \<open>1 - threshold\<close>; and the threshold of a manager just
  constructed is 0.6.
\<close>

theorem search_similarity_threshold:
  "(\<forall>m\<in>set (search_similar_faces s q k).
      similarity m = max 0 (1 - distance m) \<and>
      (\<exists>i<ntotal s. index_position m = int i \<and>
         l2sqr (np_normalize q) (index s ! i) = Fin (distance m))) \<and>
   (\<forall>(dd, idx)\<in>set (search_candidates s q k). idx \<noteq> - 1 \<longrightarrow>
      ((\<exists>m\<in>set (search_similar_faces s q k). distance m = dd \<and> index_position m = idx)
         \<longleftrightarrow> max 0 (1 - dd) \<ge> 1 - threshold s)) \<and>
   threshold (FAISSManager disk) = 6 / 10"
proof (intro conjI ballI)
  fix m assume m: "m \<in> set (search_similar_faces s q k)"
  show "similarity m = max 0 (1 - distance m)"
    using m collect_matches_similarity unfolding search_via_candidates by blast
  have "(distance m, index_position m)
          \<in> set (map (\<lambda>m. (distance m, index_position m)) (search_similar_faces s q k))"
    using m by force
  then have c: "(distance m, index_position m) \<in> set (search_candidates s q k)"
    and n: "index_position m \<noteq> - 1"
    unfolding search_pairs by auto
  have "(distance m, index_position m) \<in> set (candidates (index s) (np_normalize q))"
    using search_candidates_cases [of s q k]
  proof
    assume "search_candidates s q k = []"
    then show ?thesis using c by simp
  next
    assume "search_candidates s q k =
     take (nat (min k (int (ntotal s)))) (sort_key fst (candidates (index s) (np_normalize q)))
       @ replicate (nat (min k (int (ntotal s)))
                     - length (take (nat (min k (int (ntotal s))))
                                 (sort_key fst (candidates (index s) (np_normalize q)))))
           (FLT_MAX, - 1)"
    then have "(distance m, index_position m)
                 \<in> set (take (nat (min k (int (ntotal s))))
                          (sort_key fst (candidates (index s) (np_normalize q))))"
      using c n by auto
    then show ?thesis
      using set_take_subset by fastforce
  qed
  then show "\<exists>i<ntotal s. index_position m = int i \<and>
         l2sqr (np_normalize q) (index s ! i) = Fin (distance m)"
    unfolding candidates_mem ntotal_def by blast
next
  fix x assume x: "x \<in> set (search_candidates s q k)"
  obtain dd idx where p: "x = (dd, idx)" by (cases x)
  have "(\<exists>m\<in>set (search_similar_faces s q k). distance m = dd \<and> index_position m = idx)
          \<longleftrightarrow> (dd, idx) \<in> set (map (\<lambda>m. (distance m, index_position m)) (search_similar_faces s q k))"
    by force
  also have "\<dots> \<longleftrightarrow> idx \<noteq> - 1 \<and> accepted (threshold s) dd"
    unfolding search_pairs using x p by simp
  finally show "case x of (dd, idx) \<Rightarrow> idx \<noteq> - 1 \<longrightarrow>
      ((\<exists>m\<in>set (search_similar_faces s q k). distance m = dd \<and> index_position m = idx)
         \<longleftrightarrow> max 0 (1 - dd) \<ge> 1 - threshold s)"
    using p by (simp add: accepted_def)
next
  show "threshold (FAISSManager disk) = 6 / 10"
    by (simp add: FAISSManager_def initialize_index_def new_index_def split: disk_file.splits)
qed

theorem search_similarity_threshold_witness:
  "search_similar_faces two_faces unit0 5 =
     [\<lparr>face_id = PStr ''Alice_0'', person_name = PStr ''Alice'', similarity = 1, distance = 0,
       index_position = 0, rank = 1\<rparr>] \<and>
   search_candidates two_faces unit0 5 = [(0, 0), (2, 1)] \<and>
   (1::real) = max 0 (1 - 0) \<and>
   (\<exists>i<ntotal two_faces. (0::int) = int i \<and>
      l2sqr (np_normalize unit0) (index two_faces ! i) = Fin 0) \<and>
   ((\<exists>m\<in>set (search_similar_faces two_faces unit0 5). distance m = 0 \<and> index_position m = 0)
      \<longleftrightarrow> max 0 (1 - 0) \<ge> 1 - threshold two_faces) \<and>
   ((\<exists>m\<in>set (search_similar_faces two_faces unit0 5). distance m = 2 \<and> index_position m = 1)
      \<longleftrightarrow> max 0 (1 - 2) \<ge> 1 - threshold two_faces) \<and>
   \<not> max 0 (1 - 2) \<ge> 1 - threshold two_faces \<and>
   threshold (FAISSManager no_files) = 6 / 10"
  using search_similarity_threshold [of two_faces unit0 5 no_files]
  by (simp add: search_two_faces search_candidates_two_faces two_faces_fields)

lemma length_filter_mono:
  "(\<And>x. x \<in> set xs \<Longrightarrow> P x \<Longrightarrow> Q x) \<Longrightarrow> length (filter P xs) \<le> length (filter Q xs)"
  by (induction xs) auto

text \<open>
  Claim C8. With the query, the number \<open>k\<close> and the contents of the index fixed, a larger
  threshold never gives fewer accepted candidates.
\<close>

theorem threshold_monotone:
  "t1 \<le> t2 \<Longrightarrow>
     length (search_similar_faces (s\<lparr>threshold := t1\<rparr>) q k)
       \<le> length (search_similar_faces (s\<lparr>threshold := t2\<rparr>) q k)"
proof -
  assume t: "t1 \<le> t2"
  have "length (filter (\<lambda>(dd, idx). idx \<noteq> - 1 \<and> accepted t1 dd) (search_candidates s q k))
          \<le> length (filter (\<lambda>(dd, idx). idx \<noteq> - 1 \<and> accepted t2 dd) (search_candidates s q k))"
    by (rule length_filter_mono) (use t in \<open>auto intro: accepted_mono\<close>)
  then show ?thesis
    by (simp add: length_search)
qed

theorem threshold_monotone_witness:
  "(6 / 10 :: real) \<le> 3 / 2 \<and>
   length (search_similar_faces (two_faces\<lparr>threshold := 6 / 10\<rparr>) unit0 5) = 1 \<and>
   length (search_similar_faces (two_faces\<lparr>threshold := 3 / 2\<rparr>) unit0 5) = 2 \<and>
   length (search_similar_faces (two_faces\<lparr>threshold := 6 / 10\<rparr>) unit0 5)
     \<le> length (search_similar_faces (two_faces\<lparr>threshold := 3 / 2\<rparr>) unit0 5)"
proof -
  have h: "(6 / 10 :: real) \<le> 3 / 2" by simp
  show ?thesis
    using threshold_monotone [OF h, of two_faces unit0 5] h search_two_faces_narrow
      search_two_faces_wide
    by simp
qed



section \<open>Properties: the encoding\<close>

lemma length_compute_hog_features: "length (compute_hog_features g) = 128"
  by (simp add: compute_hog_features_def Let_def)

lemma shape1_replicate: "0 < h \<Longrightarrow> shape1 (replicate h row) = length row"
  by (cases h) (auto simp: shape1_def)

lemma reflect101_less: "0 < n \<Longrightarrow> - 1 \<le> i \<Longrightarrow> i \<le> int n \<Longrightarrow> reflect101 n i < n"
  by (auto simp: reflect101_def)

lemma pixel_uniform:
  assumes "0 < h" "0 < w" "- 1 \<le> r" "r \<le> int h" "- 1 \<le> c" "c \<le> int w"
  shows "pixel (replicate h (replicate w v)) r c = v"
  using assms by (simp add: pixel_def shape1_replicate reflect101_less)

lemma map_upt_const: "(\<And>i. i < n \<Longrightarrow> f i = c) \<Longrightarrow> map f [0..<n] = replicate n c"
  by (rule nth_equalityI) auto

lemma sobel_x_uniform:
  assumes "0 < h" "0 < w"
  shows "sobel_x (replicate h (replicate w v)) = replicate h (replicate w 0)"
  unfolding sobel_x_def using assms
  by (simp add: shape1_replicate) (intro map_upt_const, simp add: pixel_uniform)

lemma sobel_y_uniform:
  assumes "0 < h" "0 < w"
  shows "sobel_y (replicate h (replicate w v)) = replicate h (replicate w 0)"
  unfolding sobel_y_def using assms
  by (simp add: shape1_replicate) (intro map_upt_const, simp add: pixel_uniform)

lemma cell_of_mem: "x \<in> set (cell_of m a b c d) \<Longrightarrow> \<exists>row\<in>set m. x \<in> set row"
  unfolding cell_of_def
  by (auto dest!: in_set_takeD in_set_dropD)

lemma sum_list_zeros: "\<forall>x\<in>set xs. x = 0 \<Longrightarrow> sum_list xs = (0::real)"
  by (induction xs) auto

lemma histogram_zero_weights:
  assumes "\<forall>w\<in>set ws. w = 0"
  shows "histogram a 9 ws lo hi = replicate 9 0"
proof -
  have "sum_list (map snd (filter P (zip a ws))) = 0" for P
  proof -
    have "\<forall>x\<in>set (map snd (filter P (zip a ws))). x = 0"
      using assms by (auto dest: set_zip_rightD)
    then show ?thesis
      by (rule sum_list_zeros)
  qed
  then show ?thesis
    unfolding histogram_def by (intro map_upt_const) simp
qed

lemma compute_hog_features_uniform:
  assumes "0 < h" "0 < w"
  shows "compute_hog_features (replicate h (replicate w v)) = replicate 128 0"
proof -
  let ?g = "replicate h (replicate w v)"
  let ?mag = "map2 (map2 (\<lambda>gx gy. sqrt (gx * gx + gy * gy))) (sobel_x ?g) (sobel_y ?g)"
  have mag: "?mag = replicate h (replicate w 0)"
    by (simp add: sobel_x_uniform [OF assms] sobel_y_uniform [OF assms])
  have cell: "\<forall>x\<in>set (cell_of ?mag a b c d). x = 0" for a b c d
    unfolding mag using cell_of_mem [of _ "replicate h (replicate w 0)" a b c d] by auto
  have "x = 0" if "x \<in> set (compute_hog_features ?g)" for x
    using that histogram_zero_weights [OF cell]
    by (auto simp: compute_hog_features_def Let_def split: if_splits dest!: in_set_takeD)
  then show ?thesis
    using length_compute_hog_features [of ?g]
    by (metis replicate_eqI)
qed

lemma sum_squares_eq_0: "sum_squares xs = 0 \<longleftrightarrow> xs = replicate (length xs) 0"
proof (induction xs)
  case Nil
  then show ?case by (simp add: sum_squares_def)
next
  case (Cons x xs)
  have "x * x + sum_squares xs = 0 \<longleftrightarrow> x = 0 \<and> sum_squares xs = 0"
    using sum_squares_nonneg [of xs]
    by (smt (verit) mult_eq_0_iff zero_le_square)
  then show ?case using Cons by (simp add: sum_squares_def)
qed

lemma py_slice_whole: "length xs = n \<Longrightarrow> py_slice xs 0 (int n) = xs"
  by (auto simp: py_slice_def Let_def)

lemma face_region_black: "face_region black_image whole_box = black_image"
proof -
  have "py_slice (replicate 128 (0::nat, 0::nat, 0::nat)) 0 128 = replicate 128 (0, 0, 0)"
    using py_slice_whole [of "replicate 128 (0::nat, 0::nat, 0::nat)" 128] by simp
  moreover have "py_slice (replicate 128 (replicate 128 (0::nat, 0::nat, 0::nat))) 0 128
      = replicate 128 (replicate 128 (0, 0, 0))"
    using py_slice_whole [of "replicate 128 (replicate 128 (0::nat, 0::nat, 0::nat))" 128] by simp
  ultimately show ?thesis
    by (simp add: face_region_def black_image_def whole_box_def shape1_replicate Let_def)
qed

lemma face_region_edge: "face_region edge_image whole_box = edge_image"
proof -
  let ?row = "(0::nat, 0::nat, 0::nat) # replicate 127 (1, 1, 1)"
  have "py_slice ?row 0 128 = ?row"
    using py_slice_whole [of ?row 128] by simp
  moreover have "py_slice (replicate 128 ?row) 0 128 = replicate 128 ?row"
    using py_slice_whole [of "replicate 128 ?row" 128] by simp
  ultimately show ?thesis
    by (simp add: face_region_def edge_image_def whole_box_def shape1_replicate Let_def)
qed

lemma edge_row_nth: "k < 128 \<Longrightarrow> edge_row ! k = (if k = 0 then 0 else 1)"
  by (cases k) (auto simp: edge_row_def)

lemma grey_edge: "grey_values edge_image = replicate 128 edge_row"
  by (simp add: grey_values_def edge_image_def edge_row_def)

lemma length_edge_row: "length edge_row = 128"
  by (simp add: edge_row_def)

lemma pixel_edge:
  assumes "- 1 \<le> r" "r \<le> 128" "- 1 \<le> c" "c \<le> 128"
  shows "pixel (replicate 128 edge_row) r c = (if c = 0 then 0 else 1)"
proof -
  have r: "reflect101 128 r < 128" using assms by (intro reflect101_less) auto
  have c: "reflect101 128 c < 128" using assms by (intro reflect101_less) auto
  have "reflect101 128 c = 0 \<longleftrightarrow> c = 0"
    using assms by (auto simp: reflect101_def)
  then show ?thesis
    using r c by (simp add: pixel_def shape1_replicate length_edge_row edge_row_nth)
qed

lemma sobel_x_edge: "sobel_x (replicate 128 edge_row) = replicate 128 (0 # 4 # replicate 126 0)"
proof -
  have row: "map (\<lambda>c. (pixel (replicate 128 edge_row) (int r - 1) (int c + 1)
                  + 2 * pixel (replicate 128 edge_row) (int r) (int c + 1)
                  + pixel (replicate 128 edge_row) (int r + 1) (int c + 1))
               - (pixel (replicate 128 edge_row) (int r - 1) (int c - 1)
                  + 2 * pixel (replicate 128 edge_row) (int r) (int c - 1)
                  + pixel (replicate 128 edge_row) (int r + 1) (int c - 1))) [0..<128]
             = 0 # 4 # replicate 126 0" if "r < 128" for r
  proof (rule nth_equalityI)
    show "length (map (\<lambda>c. (pixel (replicate 128 edge_row) (int r - 1) (int c + 1)
                  + 2 * pixel (replicate 128 edge_row) (int r) (int c + 1)
                  + pixel (replicate 128 edge_row) (int r + 1) (int c + 1))
               - (pixel (replicate 128 edge_row) (int r - 1) (int c - 1)
                  + 2 * pixel (replicate 128 edge_row) (int r) (int c - 1)
                  + pixel (replicate 128 edge_row) (int r + 1) (int c - 1))) [0..<128])
          = length (0 # 4 # replicate 126 (0::real))" by simp
  next
    fix c assume "c < length (map (\<lambda>c. (pixel (replicate 128 edge_row) (int r - 1) (int c + 1)
                  + 2 * pixel (replicate 128 edge_row) (int r) (int c + 1)
                  + pixel (replicate 128 edge_row) (int r + 1) (int c + 1))
               - (pixel (replicate 128 edge_row) (int r - 1) (int c - 1)
                  + 2 * pixel (replicate 128 edge_row) (int r) (int c - 1)
                  + pixel (replicate 128 edge_row) (int r + 1) (int c - 1))) [0..<128])"
    then have c: "c < 128" by simp
    have v: "(0 # 4 # replicate 126 (0::real)) ! c = (if c = 1 then 4 else 0)"
      using c by (auto simp: nth_Cons')
    show "map (\<lambda>c. (pixel (replicate 128 edge_row) (int r - 1) (int c + 1)
                  + 2 * pixel (replicate 128 edge_row) (int r) (int c + 1)
                  + pixel (replicate 128 edge_row) (int r + 1) (int c + 1))
               - (pixel (replicate 128 edge_row) (int r - 1) (int c - 1)
                  + 2 * pixel (replicate 128 edge_row) (int r) (int c - 1)
                  + pixel (replicate 128 edge_row) (int r + 1) (int c - 1))) [0..<128] ! c
          = (0 # 4 # replicate 126 0) ! c"
      unfolding v using c that by (simp add: pixel_edge)
  qed
  show ?thesis
    unfolding sobel_x_def
    by (simp add: shape1_replicate length_edge_row) (intro map_upt_const, simp add: row)
qed

lemma sobel_y_edge: "sobel_y (replicate 128 edge_row) = replicate 128 (replicate 128 0)"
  unfolding sobel_y_def
  by (simp add: shape1_replicate length_edge_row) (intro map_upt_const, simp add: pixel_edge)


lemma bin_of_zero: "bin_of 9 (- pi) pi 0 = Some 4"
proof -
  have "(0 - - pi) / (pi - - pi) * 9 = 9 / 2"
    by (simp add: field_simps)
  then show ?thesis
    by (simp add: bin_of_def less_le_not_le)
qed

lemma histogram_one_bin:
  assumes "\<forall>v\<in>set a. bin_of bins lo hi v = Some b" "length a = length ws" "b < bins"
  shows "histogram a bins ws lo hi ! b = sum_list ws"
proof -
  have "filter (\<lambda>(v, w). bin_of bins lo hi v = Some b) (zip a ws) = zip a ws"
    using assms(1) by (auto simp: filter_id_conv dest: set_zip_leftD)
  then show ?thesis
    using assms(2,3) by (simp add: histogram_def)
qed

lemma length_histogram: "length (histogram a bins ws lo hi) = bins"
  by (simp add: histogram_def)

lemma compute_hog_first:
  assumes "length g = 128" "shape1 g = 128" "k < 9"
  shows "compute_hog_features g ! k =
     histogram
       (cell_of (map2 (map2 (\<lambda>gx gy. arctan2 gy gx)) (sobel_x g) (sobel_y g)) 0 16 0 16) 9
       (cell_of (map2 (map2 (\<lambda>gx gy. sqrt (gx * gx + gy * gy))) (sobel_x g) (sobel_y g)) 0 16 0 16)
       (- pi) pi ! k"
proof -
  define mag where "mag = map2 (map2 (\<lambda>gx gy. sqrt (gx * gx + gy * gy))) (sobel_x g) (sobel_y g)"
  define ang where "ang = map2 (map2 (\<lambda>gx gy. arctan2 gy gx)) (sobel_x g) (sobel_y g)"
  define H where "H i j = histogram
       (cell_of ang (i * 16) (min ((i + 1) * 16) 128) (j * 16) (min ((j + 1) * 16) 128)) 9
       (cell_of mag (i * 16) (min ((i + 1) * 16) 128) (j * 16) (min ((j + 1) * 16) 128))
       (- pi) pi" for i j
  define F where "F = concat (map (\<lambda>i. concat (map (H i) [0..<8])) [0..<8])"
  have c: "compute_hog_features g =
      (if length F > 128 then take 128 F
       else if length F < 128 then F @ replicate (128 - length F) 0 else F)"
    unfolding compute_hog_features_def Let_def F_def H_def mag_def ang_def
    using assms(1,2) by simp
  have u: "[0..<8] = 0 # [1..<8]"
    by (simp add: upt_conv_Cons)
  have m: "map A [0..<8] = A 0 # map A [1..<8]" for A :: "nat \<Rightarrow> real list"
    by (subst u) simp
  have "F = (H 0 0 @ concat (map (H 0) [1..<8]))
              @ concat (map (\<lambda>i. concat (map (H i) [0..<8])) [1..<8])"
    unfolding F_def by (subst m, subst m) simp
  then obtain R where R: "F = H 0 0 @ R"
    by simp
  have l: "length (H 0 0) = 9"
    by (simp add: H_def length_histogram)
  have "F ! k = H 0 0 ! k" and "k < length F"
    using assms(3) l by (simp_all add: R nth_append)
  then have "compute_hog_features g ! k = H 0 0 ! k"
    using assms(3) by (simp add: c nth_append)
  then show ?thesis
    by (simp add: H_def mag_def ang_def)
qed

lemma cell_of_replicate:
  "cell_of (replicate 128 row) 0 16 0 16 = concat (replicate 16 (take 16 row))"
  by (simp add: cell_of_def)

lemma arctan2_zero: "arctan2 0 gx = (if gx < 0 then pi else 0)"
  by (simp add: arctan2_def)

lemma sum_list_concat_replicate:
  "sum_list (concat (replicate n xs)) = real n * sum_list xs"
  by (induction n) (auto simp: algebra_simps)

lemma length_concat_replicate: "length (concat (replicate n xs)) = n * length xs"
  by (induction n) auto

lemma set_concat_replicate: "x \<in> set (concat (replicate n xs)) \<Longrightarrow> x \<in> set xs"
  by (induction n) auto

lemma edge_features: "compute_hog_features (replicate 128 edge_row) ! 4 = 64"
proof -
  have z: "replicate 128 (0::real) = 0 # 0 # replicate 126 0"
    by (simp add: replicate_Suc [symmetric] del: replicate_Suc)
  have mag: "map2 (map2 (\<lambda>gx gy. sqrt (gx * gx + gy * gy)))
               (sobel_x (replicate 128 edge_row)) (sobel_y (replicate 128 edge_row))
             = replicate 128 (0 # 4 # replicate 126 0)"
    by (simp add: sobel_x_edge sobel_y_edge z)
  have ang: "map2 (map2 (\<lambda>gx gy. arctan2 gy gx))
               (sobel_x (replicate 128 edge_row)) (sobel_y (replicate 128 edge_row))
             = replicate 128 (replicate 128 0)"
    by (simp add: sobel_x_edge sobel_y_edge z arctan2_zero)
  have t: "take 16 (0 # 4 # replicate 126 (0::real)) = 0 # 4 # replicate 14 0"
    by (simp add: take_Cons')
  have "compute_hog_features (replicate 128 edge_row) ! 4
      = histogram (concat (replicate 16 (replicate 16 0))) 9
          (concat (replicate 16 (0 # 4 # replicate 14 0))) (- pi) pi ! 4"
    by (subst compute_hog_first)
      (simp_all add: shape1_replicate length_edge_row mag ang cell_of_replicate t)
  also have "\<dots> = sum_list (concat (replicate 16 (0 # 4 # replicate 14 (0::real))))"
    by (rule histogram_one_bin)
      (auto simp: bin_of_zero length_concat_replicate dest!: set_concat_replicate)
  also have "\<dots> = 64"
    by (simp add: sum_list_concat_replicate sum_list_replicate)
  finally show ?thesis .
qed

text \<open>
  Claim C3, as stated, at an image of 128 by 128 black pixels with the whole image as the
  bounding box: every gradient is zero, so are the 128 histogram values, and the division
  by their norm 0 gives 128 times not-a-number, whose norm is not 1.
\<close>

theorem encoding_uniform_counterexample:
  "generate_face_encoding grey_values black_image whole_box = Inr (replicate 128 NaN) \<and>
   linalg_norm (replicate 128 NaN) \<noteq> Fin 1"
proof -
  have g: "grey_values black_image = replicate 128 (replicate 128 0)"
    by (simp add: grey_values_def black_image_def)
  have f: "compute_hog_features (replicate 128 (replicate 128 0)) = replicate 128 0"
    by (rule compute_hog_features_uniform) simp_all
  have n: "np_normalize (replicate 128 (Fin 0)) = replicate 128 NaN"
    using np_normalize_zero [OF the_fins_replicate_Fin [of 128 0]] sum_squares_replicate_0 by simp
  have z: "length black_image * shape1 black_image \<noteq> 0"
    by (simp add: black_image_def shape1_replicate)
  show ?thesis
    using z by (simp add: generate_face_encoding_def face_region_black g f n linalg_norm_def
        the_fins_replicate_NaN)
qed

text \<open>
  Claim C3, amended. For every image and bounding box whose padded, clipped region is not
  empty, the encoding is produced and has exactly 128 elements (the concatenated cell
  histograms, cut or filled with zeros to 128, divided by their norm); its Euclidean norm
  is 1 whenever these 128 values are not all zero.
\<close>

theorem encoding_unit:
  assumes "length (face_region img face_bbox) * shape1 (face_region img face_bbox) \<noteq> 0"
  shows "\<exists>enc. generate_face_encoding to_gray img face_bbox = Inr enc \<and> length enc = 128 \<and>
           (compute_hog_features (to_gray (face_region img face_bbox)) \<noteq> replicate 128 0
              \<longrightarrow> linalg_norm enc = Fin 1)"
proof -
  let ?f = "compute_hog_features (to_gray (face_region img face_bbox))"
  have e: "generate_face_encoding to_gray img face_bbox = Inr (np_normalize (map Fin ?f))"
    using assms by (simp add: generate_face_encoding_def Let_def)
  have l: "length (np_normalize (map Fin ?f)) = 128"
    by (simp add: length_np_normalize length_compute_hog_features)
  have "linalg_norm (np_normalize (map Fin ?f)) = Fin 1" if "?f \<noteq> replicate 128 0"
  proof -
    have "sum_squares ?f \<noteq> 0"
      using that sum_squares_eq_0 [of ?f] by (simp add: length_compute_hog_features)
    then show ?thesis
      using norm_np_normalize [OF the_fins_map_Fin [of "\<lambda>x. x" ?f]] by simp
  qed
  then show ?thesis using e l by simp
qed

theorem encoding_unit_witness:
  "length (face_region edge_image whole_box) * shape1 (face_region edge_image whole_box) \<noteq> 0 \<and>
   compute_hog_features (grey_values (face_region edge_image whole_box)) \<noteq> replicate 128 0 \<and>
   (\<exists>enc. generate_face_encoding grey_values edge_image whole_box = Inr enc \<and> length enc = 128 \<and>
      linalg_norm enc = Fin 1)"
proof -
  have z: "length (face_region edge_image whole_box) * shape1 (face_region edge_image whole_box) \<noteq> 0"
    by (simp add: face_region_edge) (simp add: edge_image_def shape1_replicate)
  have "compute_hog_features (grey_values (face_region edge_image whole_box)) ! 4 \<noteq> replicate 128 0 ! 4"
    by (simp add: face_region_edge grey_edge edge_features)
  then have n: "compute_hog_features (grey_values (face_region edge_image whole_box)) \<noteq> replicate 128 0"
    by metis
  show ?thesis
    using encoding_unit [OF z, of grey_values] z n by auto
qed

section \<open>Properties: recognition\<close>

lemma process_faces_acc:
  "process_faces to_gray s img (acc, ws) ds =
     (acc @ List.map_filter (\<lambda>d. case process_face to_gray s img d of Inr r \<Rightarrow> Some r | Inl e \<Rightarrow> None) ds,
      ws @ map detection_id (filter (\<lambda>d. isl (process_face to_gray s img d)) ds))"
proof (induction ds arbitrary: acc ws)
  case Nil
  then show ?case by simp
next
  case (Cons d ds)
  then show ?case
    by (cases "process_face to_gray s img d") simp_all
qed

lemma process_face_fails:
  "isl (process_face to_gray s img d) \<longleftrightarrow> isl (generate_face_encoding to_gray img (bounding_box d))"
  by (auto simp: process_face_def Let_def split: sum.splits option.splits prod.splits)

lemma process_face_detection_id:
  "process_face to_gray s img d = Inr r \<Longrightarrow> detection_id r = detection_id d"
  by (auto simp: process_face_def Let_def split: sum.splits option.splits prod.splits)

text \<open>
  Claim C9. When the image is read and the detector answers with a list of detections
  that is not empty, the recognition never fails as a whole: it answers with the list of
  the faces processed, the number detected and the number processed. A detection whose
  encoding raises is logged with a warning under its own \<open>detection_id\<close> and left out
  of the list; every other detection is processed, in order, and its outcome is a function
  of that detection alone (with the image and the index fixed).
\<close>

theorem recognition_isolates_failures:
  assumes "preprocess_image image_data = Inr img" "detect_faces img = Inr ds" "ds \<noteq> []"
  shows "\<exists>fs. process_image_for_recognition preprocess_image detect_faces to_gray s image_data
           = (Faces fs (length ds) (length fs),
              map detection_id
                (filter (\<lambda>d. isl (generate_face_encoding to_gray img (bounding_box d))) ds)) \<and>
         fs = List.map_filter
                (\<lambda>d. case process_face to_gray s img d of Inr r \<Rightarrow> Some r | Inl e \<Rightarrow> None) ds \<and>
         map detection_id fs =
           map detection_id
             (filter (\<lambda>d. \<not> isl (generate_face_encoding to_gray img (bounding_box d))) ds)"
proof -
  let ?f = "\<lambda>d. case process_face to_gray s img d of Inr r \<Rightarrow> Some r | Inl e \<Rightarrow> None"
  have ids: "map detection_id (List.map_filter ?f xs) =
      map detection_id (filter (\<lambda>d. \<not> isl (generate_face_encoding to_gray img (bounding_box d))) xs)"
    for xs
  proof (induction xs)
    case Nil
    then show ?case by simp
  next
    case (Cons d xs)
    show ?case
    proof (cases "process_face to_gray s img d")
      case (Inl e)
      then have "isl (generate_face_encoding to_gray img (bounding_box d))"
        using process_face_fails [of to_gray s img d] by simp
      then show ?thesis using Inl Cons by simp
    next
      case (Inr r)
      then have "\<not> isl (generate_face_encoding to_gray img (bounding_box d))"
        using process_face_fails [of to_gray s img d] by simp
      then show ?thesis
        using Inr Cons process_face_detection_id [OF Inr] by simp
    qed
  qed
  show ?thesis
    using assms ids
    by (simp add: process_image_for_recognition_def process_faces_acc process_face_fails)
qed

lemma bad_box_fails:
  "isl (generate_face_encoding grey_values black_image
          \<lparr>bb_x = 500, bb_y = 0, bb_width = 10, bb_height = 10\<rparr>)"
proof -
  have "face_region black_image \<lparr>bb_x = 500, bb_y = 0, bb_width = 10, bb_height = 10\<rparr>
          = replicate 30 []"
    by (simp add: face_region_def black_image_def shape1_replicate py_slice_def Let_def)
  then show ?thesis
    by (simp add: generate_face_encoding_def shape1_replicate Let_def)
qed

lemma whole_box_succeeds: "\<not> isl (generate_face_encoding grey_values black_image whole_box)"
  by (simp add: generate_face_encoding_def face_region_black Let_def)
    (simp add: black_image_def shape1_replicate)

theorem recognition_isolates_failures_witness:
  "\<exists>fs. process_image_for_recognition (\<lambda>u::unit. Inr black_image)
           (\<lambda>i. Inr [\<lparr>bounding_box = \<lparr>bb_x = 500, bb_y = 0, bb_width = 10, bb_height = 10\<rparr>,
                        confidence = 9 / 10, detection_id = 0\<rparr>,
                      \<lparr>bounding_box = whole_box, confidence = 8 / 10, detection_id = 1\<rparr>])
           grey_values two_faces ()
         = (Faces fs 2 (length fs), [0]) \<and> map detection_id fs = [1]"
  using recognition_isolates_failures [of "\<lambda>u::unit. Inr black_image" "()" black_image
          "\<lambda>i. Inr [\<lparr>bounding_box = \<lparr>bb_x = 500, bb_y = 0, bb_width = 10, bb_height = 10\<rparr>,
                        confidence = 9 / 10, detection_id = 0\<rparr>,
                      \<lparr>bounding_box = whole_box, confidence = 8 / 10, detection_id = 1\<rparr>]"
          "[\<lparr>bounding_box = \<lparr>bb_x = 500, bb_y = 0, bb_width = 10, bb_height = 10\<rparr>,
                        confidence = 9 / 10, detection_id = 0\<rparr>,
                      \<lparr>bounding_box = whole_box, confidence = 8 / 10, detection_id = 1\<rparr>]"
          grey_values two_faces]
  by (simp add: bad_box_fails whole_box_succeeds)

end
